theory Spec2Isabelle
  imports Main "HOL-Library.AList" "HOL-Library.Word"
begin

section \<open>Python values used by streamlit_app.py\<close>

text \<open>
  A Python \<open>str\<close> is a sequence of Unicode code points, so it is a list of naturals here
  (slicing and \<open>split\<close> count code points, not bytes). \<open>str_of\<close> turns an ASCII
  literal into such a string. \<open>bytes\<close> are lists of octets.
\<close>

type_synonym pystr = "nat list"
type_synonym bytes = "8 word list"

definition str_of :: "string \<Rightarrow> pystr" where
  "str_of s = map of_char s"

text \<open>
  \<open>str.strip()\<close> without argument and the class \<open>\s\<close> of \<open>re\<close> on a \<open>str\<close>
  pattern use the same test, CPython's \<open>Py_UNICODE_ISSPACE\<close>: the ASCII controls
  U+0009..U+000D and U+001C..U+001F, the space, and the Unicode white space beyond ASCII.
\<close>

definition isspace :: "nat \<Rightarrow> bool" where
  "isspace c \<longleftrightarrow>
     (9 \<le> c \<and> c \<le> 13) \<or> (28 \<le> c \<and> c \<le> 32) \<or> c = 133 \<or> c = 160 \<or> c = 5760 \<or>
     (8192 \<le> c \<and> c \<le> 8202) \<or> c = 8232 \<or> c = 8233 \<or> c = 8239 \<or> c = 8287 \<or> c = 12288"

text \<open>\<open>s.strip()\<close>: drop the white space at both ends.\<close>

definition strip :: "pystr \<Rightarrow> pystr" where
  "strip s = rev (dropWhile isspace (rev (dropWhile isspace s)))"

text \<open>
  \<open>re.sub(r'\s+', ' ', s)\<close>: scanning from the left, every maximal run of white space
  is replaced by one space (U+0020); other code points are copied.
\<close>

function re_sub_ws :: "pystr \<Rightarrow> pystr" where
  "re_sub_ws [] = []"
| "re_sub_ws (c # cs) =
     (if isspace c then 32 # re_sub_ws (dropWhile isspace cs) else c # re_sub_ws cs)"
  by pat_completeness auto
termination
  by (relation "measure length") (auto simp: length_dropWhile_le less_Suc_eq_le)

text \<open>
  \<open>s.split(sep)\<close> for a separator of one code point: the pieces between the occurrences
  of the separator, in order; the list is never empty (\<open>''.split('.') == ['']\<close>).
\<close>

fun split_str :: "nat \<Rightarrow> pystr \<Rightarrow> pystr list" where
  "split_str sep [] = [[]]"
| "split_str sep (c # cs) =
     (if c = sep then [] # split_str sep cs
      else (case split_str sep cs of
              [] \<Rightarrow> [[c]]
            | p # ps \<Rightarrow> (c # p) # ps))"

text \<open>The code point of the full stop, \<open>'.'\<close>.\<close>

definition period :: nat where
  "period = 46"

text \<open>
  Exceptions. Everything the libraries raise here derives from \<open>Exception\<close>; the
  payload of \<open>LibraryError\<close> is what \<open>str(e)\<close> gives. \<open>DuplicateWidgetID\<close> is
  Streamlit's error for a second widget with the identity of one already drawn.
\<close>

datatype py_exn =
    IndexError
  | KeyError pystr
  | FileNotFoundError nat
  | LibraryError pystr
  | DuplicateWidgetID

fun str_exn :: "py_exn \<Rightarrow> pystr" where
  "str_exn IndexError = str_of ''list index out of range''"
| "str_exn (KeyError k) = str_of [CHR 0x27] @ k @ str_of [CHR 0x27]"
| "str_exn (FileNotFoundError p) = str_of ''[Errno 2] No such file or directory''"
| "str_exn (LibraryError m) = m"
| "str_exn DuplicateWidgetID = str_of ''There are multiple identical st.download_button widgets''"

text \<open>A call either returns a value or raises.\<close>

datatype 'a result = Return 'a | Raise py_exn

section \<open>The world the script runs in\<close>

text \<open>
  One value of the dict \<open>st.session_state.processed_files\<close>: the dict literal of
  lines 107-111, with its three keys.
\<close>

record entry =
  content :: bytes
  proposed_name :: pystr
  original_name :: pystr

text \<open>
  The dict itself, keyed by the original file name. Python dicts keep insertion order
  and line 130 iterates over it, so it is an association list: \<open>AList.update\<close> replaces
  the value of a present key in place and appends a new key at the end, as assignment
  to \<open>d[k]\<close> does. A Python dict never holds a key twice.
\<close>

type_synonym registry = "(pystr \<times> entry) list"

text \<open>An uploaded file: \<open>pdf_file.name\<close> and \<open>pdf_file.getvalue()\<close>.\<close>

record uploaded_file =
  name :: pystr
  getvalue :: bytes

text \<open>
  What the script shows: \<open>st.error\<close>, \<open>st.warning\<close> and
  \<open>st.download_button(label, data, file_name, mime)\<close>, in the order of the calls. The
  layout calls (\<open>st.title\<close>, \<open>st.write\<close>, \<open>st.columns\<close>, \<open>st.spinner\<close>,
  \<open>st.expander\<close>) show fixed text and are left out.
\<close>

datatype ui_event =
    StError pystr
  | StWarning pystr
  | StDownloadButton pystr bytes pystr pystr

text \<open>Which of the two helper functions was entered, and on what.\<close>

datatype call =
    Called_extract_text_from_pdf uploaded_file
  | Called_get_title_using_ai pystr

text \<open>
  The state around the script:
  \<^item> \<open>processed_files\<close>: the dict in the session state (a new session starts with the
    empty dict, lines 78-79);
  \<^item> \<open>tmp_files\<close>: the files in the directory of temporary files, by path (paths are
    numbered) with their contents;
  \<^item> \<open>rng\<close>: the state of the random number generator the model would sample with;
  \<^item> \<open>ui\<close>: what the current run of the script has shown so far (every run draws the
    page anew);
  \<^item> \<open>calls\<close>: a log of the entries into \<open>extract_text_from_pdf\<close> and
    \<open>get_title_using_ai\<close>, kept only to state that a function was not called.
\<close>

record world =
  processed_files :: registry
  tmp_files :: "(nat \<times> bytes) list"
  rng :: nat
  ui :: "ui_event list"
  calls :: "call list"

definition st_error :: "pystr \<Rightarrow> world \<Rightarrow> world" where
  "st_error msg w = w\<lparr>ui := ui w @ [StError msg]\<rparr>"

definition st_warning :: "pystr \<Rightarrow> world \<Rightarrow> world" where
  "st_warning msg w = w\<lparr>ui := ui w @ [StWarning msg]\<rparr>"

text \<open>
  \<open>st.download_button(label=, data=, file_name=, mime=)\<close> as lines 151-156 call it,
  without \<open>key=\<close>. Streamlit then takes the identity of the button from its label, its
  file name and its type, and refuses a second button of the same identity in one run: the
  call raises and nothing is drawn. \<open>same_button\<close> is the test for an element already
  drawn.
\<close>

fun same_button :: "pystr \<Rightarrow> pystr \<Rightarrow> pystr \<Rightarrow> ui_event \<Rightarrow> bool" where
  "same_button label file_name mime (StDownloadButton l d f m) =
     (l = label \<and> f = file_name \<and> m = mime)"
| "same_button label file_name mime (StError msg) = False"
| "same_button label file_name mime (StWarning msg) = False"

definition st_download_button :: "pystr \<Rightarrow> bytes \<Rightarrow> pystr \<Rightarrow> pystr \<Rightarrow> world \<Rightarrow> unit result \<times> world" where
  "st_download_button label data file_name mime w =
     (if list_ex (same_button label file_name mime) (ui w) then (Raise DuplicateWidgetID, w)
      else (Return (), w\<lparr>ui := ui w @ [StDownloadButton label data file_name mime]\<rparr>))"

subsection \<open>Temporary files\<close>

text \<open>\<open>tempfile\<close> picks a path that no existing file has.\<close>

fun fresh_path :: "(nat \<times> bytes) list \<Rightarrow> nat" where
  "fresh_path [] = 0"
| "fresh_path ((p, b) # fs) = max (Suc p) (fresh_path fs)"

text \<open>
  \<open>with NamedTemporaryFile(delete=False, suffix='.pdf') as tmp_file: tmp_file.write(data)\<close>
  and \<open>tmp_file.name\<close>: a new file with the data, which stays after the \<open>with\<close> block
  because of \<open>delete=False\<close>.
\<close>

definition NamedTemporaryFile :: "bytes \<Rightarrow> world \<Rightarrow> nat \<times> world" where
  "NamedTemporaryFile data w =
     (let tmp_file_path = fresh_path (tmp_files w)
      in (tmp_file_path, w\<lparr>tmp_files := AList.update tmp_file_path data (tmp_files w)\<rparr>))"

text \<open>\<open>os.unlink(path)\<close> removes the file, and raises when there is none.\<close>

definition os_unlink :: "nat \<Rightarrow> world \<Rightarrow> unit result \<times> world" where
  "os_unlink path w =
     (case map_of (tmp_files w) path of
        None \<Rightarrow> (Raise (FileNotFoundError path), w)
      | Some data \<Rightarrow> (Return (), w\<lparr>tmp_files := AList.delete path (tmp_files w)\<rparr>))"

subsection \<open>The PDF library\<close>

text \<open>
  pypdf is not part of the repository, so what it makes of the bytes is a parameter: a
  parser gives, for the bytes of a file, either an exception (the bytes are no PDF) or a
  reader. A reader is what \<open>reader.pages\<close> does when it is first used (pypdf walks
  the page tree only then): raise, or give the pages; and a page is what its
  \<open>extract_text()\<close> does: return the text or raise. \<open>PdfReader(path)\<close> reads the whole
  file at the path when it is constructed.
\<close>

type_synonym page = "pystr result"
type_synonym reader = "page list result"
type_synonym pdf_parser = "bytes \<Rightarrow> reader result"

definition PdfReader :: "pdf_parser \<Rightarrow> nat \<Rightarrow> world \<Rightarrow> reader result" where
  "PdfReader parse path w =
     (case map_of (tmp_files w) path of
        None \<Rightarrow> Raise (FileNotFoundError path)
      | Some data \<Rightarrow> parse data)"

section \<open>extract_text_from_pdf (lines 25-44)\<close>

text \<open>The body of the \<open>try\<close> block, lines 28-40.\<close>

definition extract_text_body :: "pdf_parser \<Rightarrow> uploaded_file \<Rightarrow> world \<Rightarrow> pystr option result \<times> world" where
  "extract_text_body parse pdf_file w =
     (case NamedTemporaryFile (getvalue pdf_file) w of
        (tmp_file_path, w1) \<Rightarrow>
          (case PdfReader parse tmp_file_path w1 of
             Raise e \<Rightarrow> (Raise e, w1)
           | Return reader \<Rightarrow>
               (case os_unlink tmp_file_path w1 of
                  (Raise e, w2) \<Rightarrow> (Raise e, w2)
                | (Return u, w2) \<Rightarrow>
                    (case reader of
                       Raise e \<Rightarrow> (Raise e, w2)
                     | Return pages \<Rightarrow>
                         (if length pages = 0 then (Return None, w2)
                          else (case hd pages of
                                  Raise e \<Rightarrow> (Raise e, w2)
                                | Return text \<Rightarrow>
                                    (Return (if strip text \<noteq> [] then Some text else None),
                                     w2)))))))"

text \<open>
  The function: the body under \<open>try\<close>, and the handler of lines 42-44, which shows the
  error and returns \<open>None\<close>. The entry into the function is noted in the log of calls.
\<close>

definition extract_text_from_pdf :: "pdf_parser \<Rightarrow> uploaded_file \<Rightarrow> world \<Rightarrow> pystr option result \<times> world" where
  "extract_text_from_pdf parse pdf_file w =
     (case extract_text_body parse pdf_file (w\<lparr>calls := calls w @ [Called_extract_text_from_pdf pdf_file]\<rparr>) of
        (Raise e, w1) \<Rightarrow>
          (Return None, st_error (str_of ''Error extracting text from PDF: '' @ str_exn e) w1)
      | (Return r, w1) \<Rightarrow> (Return r, w1))"

section \<open>get_title_using_ai (lines 46-63)\<close>

text \<open>
  The summarizer is the pipeline of \<open>transformers\<close>, outside the repository, so it is a
  parameter: from the state of the random number generator, the text, \<open>max_length\<close>,
  \<open>min_length\<close> and \<open>do_sample\<close> it gives an exception or a list of dicts from keys to
  strings.
\<close>

type_synonym summarizer = "nat \<Rightarrow> pystr \<Rightarrow> nat \<Rightarrow> nat \<Rightarrow> bool \<Rightarrow> (string \<times> pystr) list list result"

text \<open>Lines 56-59, the clean-up of the summary.\<close>

definition clean_title :: "pystr \<Rightarrow> pystr" where
  "clean_title summary =
     (let title = strip summary;
          title = re_sub_ws title;
          title = hd (split_str period title)
      in title)"

text \<open>The body of the \<open>try\<close> block, lines 49-59.\<close>

definition get_title_body :: "pystr \<Rightarrow> summarizer \<Rightarrow> world \<Rightarrow> pystr result" where
  "get_title_body text summarize w =
     (case summarize (rng w) (take 1024 text) 30 5 False of
        Raise e \<Rightarrow> Raise e
      | Return out \<Rightarrow>
          (case out of
             [] \<Rightarrow> Raise IndexError
           | d # ds \<Rightarrow>
               (case map_of d ''summary_text'' of
                  None \<Rightarrow> Raise (KeyError (str_of ''summary_text''))
                | Some summary \<Rightarrow> Return (clean_title summary))))"

text \<open>
  The function: the body under \<open>try\<close>, and the handler of lines 61-63. The entry into
  the function is noted in the log of calls.
\<close>

definition get_title_using_ai :: "pystr \<Rightarrow> summarizer \<Rightarrow> world \<Rightarrow> pystr option result \<times> world" where
  "get_title_using_ai text summarize w =
     (let w1 = w\<lparr>calls := calls w @ [Called_get_title_using_ai text]\<rparr>
      in case get_title_body text summarize w1 of
           Raise e \<Rightarrow>
             (Return None, st_error (str_of ''Error using AI for title extraction: '' @ str_exn e) w1)
         | Return title \<Rightarrow> (Return (Some title), w1))"

section \<open>main (lines 73-175)\<close>

text \<open>Python's truth test on what the two helpers return: \<open>None\<close> and \<open>''\<close> are false.\<close>

fun truthy :: "pystr option \<Rightarrow> bool" where
  "truthy None = False"
| "truthy (Some s) = (s \<noteq> [])"

text \<open>The body of the upload loop, lines 98-115, for one uploaded file.\<close>

definition process_file :: "pdf_parser \<Rightarrow> summarizer \<Rightarrow> uploaded_file \<Rightarrow> world \<Rightarrow> unit result \<times> world" where
  "process_file parse summarize pdf_file w =
     (if name pdf_file \<notin> set (map fst (processed_files w)) then
        (case extract_text_from_pdf parse pdf_file w of
           (Raise e, w1) \<Rightarrow> (Raise e, w1)
         | (Return text, w1) \<Rightarrow>
             (if truthy text then
                (case get_title_using_ai (the text) summarize w1 of
                   (Raise e, w2) \<Rightarrow> (Raise e, w2)
                 | (Return title, w2) \<Rightarrow>
                     (if truthy title then
                        (let new_name = the title @ str_of ''.pdf''
                         in (Return (),
                             w2\<lparr>processed_files :=
                                  AList.update (name pdf_file)
                                    \<lparr>content = getvalue pdf_file,
                                     proposed_name = new_name,
                                     original_name = name pdf_file\<rparr>
                                    (processed_files w2)\<rparr>))
                      else (Return (),
                            st_warning (str_of ''Could not generate title for '' @ name pdf_file) w2)))
              else (Return (),
                    st_warning (str_of ''Could not extract text from '' @ name pdf_file) w1)))
      else (Return (), w))"

text \<open>The loop of line 97 over the uploaded files.\<close>

fun process_uploads :: "pdf_parser \<Rightarrow> summarizer \<Rightarrow> uploaded_file list \<Rightarrow> world \<Rightarrow> unit result \<times> world" where
  "process_uploads parse summarize [] w = (Return (), w)"
| "process_uploads parse summarize (pdf_file # rest) w =
     (case process_file parse summarize pdf_file w of
        (Raise e, w1) \<Rightarrow> (Raise e, w1)
      | (Return u, w1) \<Rightarrow> process_uploads parse summarize rest w1)"

text \<open>
  \<open>st.text_input(label, value, key=key)\<close> returns what the user has typed into the
  widget with that key, or the given value when the user has typed nothing. What the user
  typed is an input of the run: an association list from widget keys to texts. The keys of
  line 140 are made from the keys of the dict, so no two input widgets share one.
\<close>

type_synonym widgets = "(pystr \<times> pystr) list"

definition st_text_input :: "widgets \<Rightarrow> pystr \<Rightarrow> pystr \<Rightarrow> pystr" where
  "st_text_input typed val key = (case map_of typed key of None \<Rightarrow> val | Some v \<Rightarrow> v)"

text \<open>
  Line 143, \<open>st.session_state.processed_files[original_name]['proposed_name'] = new_name\<close>:
  the lookup raises \<open>KeyError\<close> for a name that is no key; otherwise only the proposed
  name of that entry changes. This is the registry's \<open>set_proposed_name\<close>.
\<close>

definition set_proposed_name :: "pystr \<Rightarrow> pystr \<Rightarrow> world \<Rightarrow> unit result \<times> world" where
  "set_proposed_name key new_name w =
     (case map_of (processed_files w) key of
        None \<Rightarrow> (Raise (KeyError key), w)
      | Some file_info \<Rightarrow>
          (Return (),
           w\<lparr>processed_files :=
                AList.update key (file_info\<lparr>proposed_name := new_name\<rparr>)
                  (processed_files w)\<rparr>))"

text \<open>
  The loop of lines 130-156 over \<open>list(processed_files.items())\<close>, one row per entry
  (\<open>key\<close> is the loop variable \<open>original_name\<close>).
  \<open>file_info\<close> is the entry itself (the list copies the pairs, not the entries), and no
  row changes the entry of another key, so what a row reads from \<open>file_info\<close> is what
  the items held when the loop began. The temporary file of lines 147-149 is written and
  left behind. When the download button of a row raises, the loop ends there, with the
  rows after it not drawn.
\<close>

fun render_rows :: "widgets \<Rightarrow> (pystr \<times> entry) list \<Rightarrow> world \<Rightarrow> unit result \<times> world" where
  "render_rows typed [] w = (Return (), w)"
| "render_rows typed ((key, file_info) # items) w =
     (let new_name = st_text_input typed (proposed_name file_info) (str_of ''input_'' @ key)
      in case set_proposed_name key new_name w of
           (Raise e, w1) \<Rightarrow> (Raise e, w1)
         | (Return u, w1) \<Rightarrow>
             (case NamedTemporaryFile (content file_info) w1 of
                (download_path, w2) \<Rightarrow>
                  (case st_download_button (str_of ''Download'') (content file_info) new_name
                          (str_of ''application/pdf'') w2 of
                     (Raise e, w3) \<Rightarrow> (Raise e, w3)
                   | (Return u, w3) \<Rightarrow> render_rows typed items w3)))"

text \<open>
  The body of the \<open>try\<close> block of \<open>main\<close>, lines 83-171. \<open>load_model\<close> is what the
  cached loader gives, \<open>uploaded_files\<close> what the uploader holds, \<open>typed\<close> the texts
  in the input widgets and \<open>clear_all\<close> whether the button "Clear All" was pressed.
  After the reset, \<open>st.experimental_rerun()\<close> ends the run.
\<close>

definition main_body :: "summarizer result \<Rightarrow> pdf_parser \<Rightarrow> uploaded_file list \<Rightarrow> widgets \<Rightarrow> bool \<Rightarrow> world \<Rightarrow> unit result \<times> world" where
  "main_body load_model parse uploaded_files typed clear_all w =
     (case load_model of
        Raise e \<Rightarrow> (Raise e, w)
      | Return summarize \<Rightarrow>
          (if uploaded_files \<noteq> [] then
             (case process_uploads parse summarize uploaded_files w of
                (Raise e, w1) \<Rightarrow> (Raise e, w1)
              | (Return u, w1) \<Rightarrow>
                  (if processed_files w1 \<noteq> [] then
                     (case render_rows typed (processed_files w1) w1 of
                        (Raise e, w2) \<Rightarrow> (Raise e, w2)
                      | (Return u, w2) \<Rightarrow>
                          (if clear_all then (Return (), w2\<lparr>processed_files := []\<rparr>)
                           else (Return (), w2)))
                   else (Return (), w1)))
           else (Return (), w)))"

text \<open>
  \<open>main\<close>, one run of the script: the page starts empty, then the body, and the
  handler of lines 173-175.
\<close>

definition main :: "summarizer result \<Rightarrow> pdf_parser \<Rightarrow> uploaded_file list \<Rightarrow> widgets \<Rightarrow> bool \<Rightarrow> world \<Rightarrow> world" where
  "main load_model parse uploaded_files typed clear_all w =
     (case main_body load_model parse uploaded_files typed clear_all (w\<lparr>ui := []\<rparr>) of
        (Raise e, w1) \<Rightarrow>
          st_error (str_of ''Please refresh the page and try again'')
            (st_error (str_of ''An error occurred: '' @ str_exn e) w1)
      | (Return u, w1) \<Rightarrow> w1)"

section \<open>Concrete inputs\<close>

text \<open>A new session: nothing registered, no temporary file, nothing shown.\<close>

definition new_session :: world where
  "new_session = \<lparr>processed_files = [], tmp_files = [], rng = 0, ui = [], calls = []\<rparr>"

text \<open>A parser that makes the same of all bytes, and a summarizer that answers the same to all texts.\<close>

definition parse_as :: "reader result \<Rightarrow> pdf_parser" where
  "parse_as r data = r"

definition answer_with :: "(string \<times> pystr) list list result \<Rightarrow> summarizer" where
  "answer_with r seed text max_length min_length do_sample = r"

text \<open>
  A summarizer that gives back its input, and under sampling puts the state of the random
  number generator in front.
\<close>

definition echo_summarizer :: summarizer where
  "echo_summarizer seed text max_length min_length do_sample =
     Return [[(''summary_text'', if do_sample then seed # text else text)]]"

text \<open>Uploaded files: two with the same name and different bytes, and one of another name.\<close>

definition report_pdf :: uploaded_file where
  "report_pdf = \<lparr>name = str_of ''report.pdf'', getvalue = [37, 80, 68, 70]\<rparr>"

definition report_pdf_again :: uploaded_file where
  "report_pdf_again = \<lparr>name = str_of ''report.pdf'', getvalue = [37, 80, 68, 70, 10]\<rparr>"

definition notes_pdf :: uploaded_file where
  "notes_pdf = \<lparr>name = str_of ''notes.pdf'', getvalue = [110, 111]\<rparr>"

text \<open>
  A parser that finds one page with a sentence and a half on it, and the session after the
  first upload of the report has been processed with it.
\<close>

definition page_parser :: pdf_parser where
  "page_parser = parse_as (Return (Return [Return (str_of ''Revenue  Growth Report. Fiscal Year 2024'')]))"

definition listing_session :: world where
  "listing_session = snd (process_file page_parser echo_summarizer report_pdf new_session)"

text \<open>
  The same PDF uploaded a second time under another name, and the session after both
  uploads have been processed.
\<close>

definition copy_pdf :: uploaded_file where
  "copy_pdf = \<lparr>name = str_of ''copy.pdf'', getvalue = [37, 80, 68, 70]\<rparr>"

definition twin_session :: world where
  "twin_session =
     snd (process_uploads page_parser echo_summarizer [report_pdf, copy_pdf] new_session)"

section \<open>Notions the properties are stated with\<close>

text \<open>Two white-space code points next to each other somewhere in a string.\<close>

fun consecutive_ws :: "pystr \<Rightarrow> bool" where
  "consecutive_ws (a # b # cs) = ((isspace a \<and> isspace b) \<or> consecutive_ws (b # cs))"
| "consecutive_ws cs = False"

text \<open>
  A sequence of edits of proposed names: line 143 once for each pair of a key and a new
  name, in order, up to the first that raises.
\<close>

fun edit_names :: "(pystr \<times> pystr) list \<Rightarrow> world \<Rightarrow> unit result \<times> world" where
  "edit_names [] w = (Return (), w)"
| "edit_names ((key, new_name) # edits) w =
     (case set_proposed_name key new_name w of
        (Raise e, w1) \<Rightarrow> (Raise e, w1)
      | (Return u, w1) \<Rightarrow> edit_names edits w1)"

text \<open>The download button a row shows for an entry: its label, data, file name and type.\<close>

definition download_button_of :: "pystr \<times> entry \<Rightarrow> ui_event" where
  "download_button_of item =
     StDownloadButton (str_of ''Download'') (content (snd item)) (proposed_name (snd item))
       (str_of ''application/pdf'')"

text \<open>
  An item of the dict after its row has been rendered: the proposed name is what the input
  widget of the row returned.
\<close>

definition edited_row :: "widgets \<Rightarrow> pystr \<times> entry \<Rightarrow> pystr \<times> entry" where
  "edited_row typed item =
     (fst item,
      (snd item)\<lparr>proposed_name :=
                   st_text_input typed (proposed_name (snd item)) (str_of ''input_'' @ fst item)\<rparr>)"

section \<open>Strings\<close>

lemma all_dropWhile_iff: "(\<forall>x\<in>set (dropWhile P s). P x) \<longleftrightarrow> (\<forall>x\<in>set s. P x)"
proof
  assume a: "\<forall>x\<in>set (dropWhile P s). P x"
  have "dropWhile P s = []"
  proof (rule ccontr)
    assume ne: "dropWhile P s \<noteq> []"
    then have "\<not> P (hd (dropWhile P s))" by (rule hd_dropWhile)
    moreover from ne have "hd (dropWhile P s) \<in> set (dropWhile P s)" by simp
    ultimately show False using a by blast
  qed
  then show "\<forall>x\<in>set s. P x" by simp
next
  assume "\<forall>x\<in>set s. P x"
  then show "\<forall>x\<in>set (dropWhile P s). P x" by (auto dest: set_dropWhileD)
qed

text \<open>\<open>s.strip()\<close> is empty exactly for a string of white space only.\<close>

lemma strip_Nil_iff: "strip s = [] \<longleftrightarrow> (\<forall>c\<in>set s. isspace c)"
  by (simp add: strip_def all_dropWhile_iff)

lemma split_str_nonempty: "split_str sep s \<noteq> []"
  by (induction s) (auto split: list.splits)

text \<open>\<open>s.split(sep)[0]\<close> is the part of \<open>s\<close> before the first separator.\<close>

lemma hd_split_str: "hd (split_str sep s) = takeWhile (\<lambda>c. c \<noteq> sep) s"
  by (induction s) (auto split: list.splits simp: split_str_nonempty)

lemma consecutive_ws_Cons:
  "consecutive_ws (a # xs) \<longleftrightarrow> (xs \<noteq> [] \<and> isspace a \<and> isspace (hd xs)) \<or> consecutive_ws xs"
  by (cases xs) auto

text \<open>\<open>consecutive_ws\<close> says what it should: two neighbouring positions hold white space.\<close>

lemma consecutive_ws_iff:
  "consecutive_ws s \<longleftrightarrow> (\<exists>i. Suc i < length s \<and> isspace (s ! i) \<and> isspace (s ! Suc i))"
proof (induction s rule: consecutive_ws.induct)
  case (1 a b cs)
  let ?s = "a # b # cs"
  show ?case
  proof
    assume "consecutive_ws ?s"
    then consider "isspace a \<and> isspace b" | "consecutive_ws (b # cs)" by auto
    then show "\<exists>i. Suc i < length ?s \<and> isspace (?s ! i) \<and> isspace (?s ! Suc i)"
    proof cases
      case 1
      then show ?thesis by (intro exI[of _ 0]) simp
    next
      case 2
      with 1 obtain i where "Suc i < length (b # cs)" "isspace ((b # cs) ! i)"
        "isspace ((b # cs) ! Suc i)" by auto
      then show ?thesis by (intro exI[of _ "Suc i"]) simp
    qed
  next
    assume "\<exists>i. Suc i < length ?s \<and> isspace (?s ! i) \<and> isspace (?s ! Suc i)"
    then obtain i where i: "Suc i < length ?s" "isspace (?s ! i)" "isspace (?s ! Suc i)"
      by auto
    show "consecutive_ws ?s"
    proof (cases i)
      case 0
      with i show ?thesis by simp
    next
      case (Suc j)
      with i have "Suc j < length (b # cs) \<and> isspace ((b # cs) ! j) \<and> isspace ((b # cs) ! Suc j)"
        by simp
      with 1 show ?thesis by auto
    qed
  qed
qed auto

lemma re_sub_ws_hd:
  "xs \<noteq> [] \<Longrightarrow> \<not> isspace (hd xs) \<Longrightarrow> re_sub_ws xs \<noteq> [] \<and> hd (re_sub_ws xs) = hd xs"
  by (cases xs) auto

lemma re_sub_ws_Nil: "re_sub_ws xs = [] \<longleftrightarrow> xs = []"
  by (cases xs) auto

text \<open>
  After the substitution no two white-space code points are neighbours: what follows the
  space written for a run is the first code point after the run, which is no white space.
\<close>

lemma re_sub_ws_no_consecutive: "\<not> consecutive_ws (re_sub_ws s)"
proof (induction s rule: re_sub_ws.induct)
  case 1
  show ?case by simp
next
  case (2 c cs)
  show ?case
  proof (cases "isspace c")
    case True
    let ?r = "dropWhile isspace cs"
    have ih: "\<not> consecutive_ws (re_sub_ws ?r)" using 2(1) True by simp
    have "\<not> isspace (hd (re_sub_ws ?r))" if "re_sub_ws ?r \<noteq> []"
    proof -
      from that have ne: "?r \<noteq> []" by (simp add: re_sub_ws_Nil)
      then have "\<not> isspace (hd ?r)" by (rule hd_dropWhile)
      with ne show ?thesis using re_sub_ws_hd by simp
    qed
    with ih True show ?thesis by (auto simp: consecutive_ws_Cons)
  next
    case False
    with 2(2) show ?thesis by (simp add: consecutive_ws_Cons)
  qed
qed

lemma consecutive_ws_takeWhile: "\<not> consecutive_ws s \<Longrightarrow> \<not> consecutive_ws (takeWhile P s)"
  by (induction s rule: consecutive_ws.induct) auto

lemma clean_title_eq: "clean_title summary = takeWhile (\<lambda>c. c \<noteq> period) (re_sub_ws (strip summary))"
  by (simp add: clean_title_def hd_split_str)

lemma clean_title_ok:
  "\<not> consecutive_ws (clean_title summary) \<and> period \<notin> set (clean_title summary)"
  by (auto simp: clean_title_eq re_sub_ws_no_consecutive consecutive_ws_takeWhile
      dest: set_takeWhileD)

section \<open>Temporary files of the extractor\<close>

lemma fresh_path_above: "(p, b) \<in> set fs \<Longrightarrow> p < fresh_path fs"
  by (induction fs rule: fresh_path.induct) auto

lemma fresh_path_fresh: "fresh_path fs \<notin> fst ` set fs"
  using fresh_path_above by fastforce

lemma delete_fresh_update: "AList.delete (fresh_path fs) (AList.update (fresh_path fs) b fs) = fs"
  by (simp add: delete_update_same fresh_path_fresh)

text \<open>
  The body of the extractor by what the parser makes of the bytes. When the reader is
  built, the file is removed again and the world is as before; when building it raises,
  line 33 is not reached and the file stays.
\<close>

lemma extract_text_body_eq:
  "extract_text_body parse pdf_file w =
     (case parse (getvalue pdf_file) of
        Raise e \<Rightarrow>
          (Raise e,
           w\<lparr>tmp_files := AList.update (fresh_path (tmp_files w)) (getvalue pdf_file) (tmp_files w)\<rparr>)
      | Return reader \<Rightarrow>
          (case reader of
             Raise e \<Rightarrow> (Raise e, w)
           | Return pages \<Rightarrow>
               (case pages of
                  [] \<Rightarrow> (Return None, w)
                | pg # rest \<Rightarrow>
                    (case pg of
                       Raise e \<Rightarrow> (Raise e, w)
                     | Return text \<Rightarrow>
                         (Return (if strip text \<noteq> [] then Some text else None), w)))))"
  by (simp add: extract_text_body_def NamedTemporaryFile_def PdfReader_def os_unlink_def Let_def
        update_conv' delete_fresh_update split: result.splits list.splits)

lemma extract_tmp_files_kept:
  "parse (getvalue pdf_file) = Return reader \<Longrightarrow>
     tmp_files (snd (extract_text_from_pdf parse pdf_file w)) = tmp_files w"
  by (simp add: extract_text_from_pdf_def extract_text_body_eq st_error_def
        split: list.splits result.splits)

lemma extract_tmp_files_leak:
  "parse (getvalue pdf_file) = Raise e \<Longrightarrow>
     map_of (tmp_files (snd (extract_text_from_pdf parse pdf_file w))) (fresh_path (tmp_files w))
       = Some (getvalue pdf_file)"
  by (simp add: extract_text_from_pdf_def extract_text_body_eq st_error_def update_conv')

lemma extract_never_raises: "fst (extract_text_from_pdf parse pdf_file w) \<noteq> Raise e"
  by (simp add: extract_text_from_pdf_def split: prod.splits result.splits)

section \<open>The extractor\<close>

text \<open>
  C1. The claim: on every exit path of \<open>extract_text_from_pdf\<close>, also after a parse
  exception, the temporary file is deleted before the function returns. The code does not
  do that when \<open>PdfReader\<close> raises: for an upload whose bytes are no PDF, the handler is
  entered before line 33, and the file written at line 29 is still there when the function
  returns \<open>None\<close>. (On the other paths it is deleted: \<open>extract_tmp_files_kept\<close>.)
\<close>

theorem extract_leaves_tmp_file_when_reader_raises:
  "fst (extract_text_from_pdf
          (parse_as (Raise (LibraryError (str_of ''EOF marker not found''))))
          notes_pdf new_session) = Return None \<and>
   tmp_files (snd (extract_text_from_pdf
                     (parse_as (Raise (LibraryError (str_of ''EOF marker not found''))))
                     notes_pdf new_session))
     = [(0, [110, 111])]"
  by (simp add: extract_text_from_pdf_def extract_text_body_def NamedTemporaryFile_def
        PdfReader_def parse_as_def notes_pdf_def new_session_def st_error_def)

text \<open>
  C2, as stated: for a PDF whose first page has text that is not only white space, the
  result is a trimmed string equal to the page's text. It fails for a page whose text
  begins with a space: line 40 tests \<open>text.strip()\<close> and returns \<open>text\<close> itself.
\<close>

theorem extract_untrimmed_counterexample:
  "fst (extract_text_from_pdf (parse_as (Return (Return [Return (str_of '' A'')]))) report_pdf new_session)
     = Return (Some (str_of '' A'')) \<and>
   strip (str_of '' A'') \<noteq> str_of '' A''"
  by (simp add: extract_text_from_pdf_def extract_text_body_eq parse_as_def strip_def
        str_of_def isspace_def)

text \<open>
  C2, amended: for a PDF whose first page has text that is not only white space,
  \<open>extract_text_from_pdf\<close> returns that text as the page gives it, white space at its
  ends included; it is not empty.
\<close>

theorem extract_returns_page_text:
  "parse (getvalue pdf_file) = Return (Return (Return text # pages)) \<Longrightarrow>
   \<exists>c\<in>set text. \<not> isspace c \<Longrightarrow>
     fst (extract_text_from_pdf parse pdf_file w) = Return (Some text) \<and> text \<noteq> []"
  by (auto simp: extract_text_from_pdf_def extract_text_body_eq strip_Nil_iff)

theorem extract_returns_page_text_witness:
  "fst (extract_text_from_pdf (parse_as (Return (Return [Return (str_of '' A'')]))) report_pdf new_session)
     = Return (Some (str_of '' A'')) \<and>
   str_of '' A'' \<noteq> []"
proof -
  have h1: "parse_as (Return (Return [Return (str_of '' A'')])) (getvalue report_pdf)
              = Return (Return (Return (str_of '' A'') # []))"
    by (simp add: parse_as_def)
  have h2: "\<exists>c\<in>set (str_of '' A''). \<not> isspace c"
    by (simp add: str_of_def isspace_def)
  show ?thesis
    using extract_returns_page_text
      [of "parse_as (Return (Return [Return (str_of '' A'')]))" report_pdf "str_of '' A''" "[]" new_session]
      h1 h2
    by simp
qed

text \<open>
  C4. For a PDF without pages, and for one whose first page gives the empty string or only
  white space, \<open>extract_text_from_pdf\<close> returns \<open>None\<close>; and whatever the parser makes
  of the bytes, the function returns and does not raise.
\<close>

theorem extract_no_text_never_raises:
  "(parse (getvalue pdf_file) = Return (Return []) \<longrightarrow>
      fst (extract_text_from_pdf parse pdf_file w) = Return None) \<and>
   (parse (getvalue pdf_file) = Return (Return (Return text # pages)) \<and> (\<forall>c\<in>set text. isspace c) \<longrightarrow>
      fst (extract_text_from_pdf parse pdf_file w) = Return None) \<and>
   (\<forall>e. fst (extract_text_from_pdf parse pdf_file w) \<noteq> Raise e)"
proof (intro conjI impI allI)
  assume "parse (getvalue pdf_file) = Return (Return [])"
  then show "fst (extract_text_from_pdf parse pdf_file w) = Return None"
    by (simp add: extract_text_from_pdf_def extract_text_body_eq)
next
  assume "parse (getvalue pdf_file) = Return (Return (Return text # pages)) \<and> (\<forall>c\<in>set text. isspace c)"
  then show "fst (extract_text_from_pdf parse pdf_file w) = Return None"
    by (simp add: extract_text_from_pdf_def extract_text_body_eq strip_Nil_iff)
next
  fix e
  show "fst (extract_text_from_pdf parse pdf_file w) \<noteq> Raise e"
    by (rule extract_never_raises)
qed

theorem extract_no_text_never_raises_witness:
  "fst (extract_text_from_pdf (parse_as (Return (Return []))) report_pdf new_session) = Return None \<and>
   fst (extract_text_from_pdf (parse_as (Return (Return [Return (str_of ''  '')]))) report_pdf new_session)
     = Return None \<and>
   fst (extract_text_from_pdf (parse_as (Raise IndexError)) notes_pdf new_session)
     \<noteq> Raise IndexError"
  using
    extract_no_text_never_raises [of "parse_as (Return (Return []))" report_pdf new_session "[]" "[]"]
    extract_no_text_never_raises
      [of "parse_as (Return (Return [Return (str_of ''  '')]))" report_pdf new_session "str_of ''  ''" "[]"]
    extract_no_text_never_raises [of "parse_as (Raise IndexError)" notes_pdf new_session "[]" "[]"]
  by (simp add: parse_as_def str_of_def isspace_def)

section \<open>The title generator\<close>

text \<open>
  C3. Whatever the text and whatever the summarizer returns, a title that
  \<open>get_title_using_ai\<close> returns (a result other than \<open>None\<close>) has no two white-space
  code points next to each other and no full stop.
\<close>

theorem title_no_double_space_no_period:
  "fst (get_title_using_ai text summarize w) = Return (Some title) \<Longrightarrow>
     \<not> consecutive_ws title \<and> period \<notin> set title"
  using clean_title_ok
  by (auto simp: get_title_using_ai_def get_title_body_def Let_def
      split: result.splits list.splits option.splits)

theorem title_no_double_space_no_period_witness:
  "fst (get_title_using_ai (str_of ''  Net   income rose. More'') echo_summarizer new_session)
     = Return (Some (str_of ''Net income rose'')) \<and>
   \<not> consecutive_ws (str_of ''Net income rose'') \<and>
   period \<notin> set (str_of ''Net income rose'')"
proof -
  have h: "fst (get_title_using_ai (str_of ''  Net   income rose. More'') echo_summarizer new_session)
             = Return (Some (str_of ''Net income rose''))"
    by (simp add: get_title_using_ai_def get_title_body_def echo_summarizer_def clean_title_def
          strip_def str_of_def isspace_def period_def new_session_def)
  show ?thesis using h title_no_double_space_no_period [OF h] by simp
qed

section \<open>The upload loop\<close>

text \<open>Neither helper touches the dict; each leaves its entry in the log of calls.\<close>

lemma extract_processed_files [simp]:
  "processed_files (snd (extract_text_from_pdf parse pdf_file w)) = processed_files w"
  by (simp add: extract_text_from_pdf_def extract_text_body_eq st_error_def
      split: result.splits list.splits)

lemma get_title_processed_files [simp]:
  "processed_files (snd (get_title_using_ai text summarize w)) = processed_files w"
  by (simp add: get_title_using_ai_def Let_def st_error_def split: result.splits)

lemma extract_logs_call:
  "calls (snd (extract_text_from_pdf parse pdf_file w))
     = calls w @ [Called_extract_text_from_pdf pdf_file]"
  by (simp add: extract_text_from_pdf_def extract_text_body_eq st_error_def
      split: result.splits list.splits)

lemma get_title_logs_call:
  "calls (snd (get_title_using_ai text summarize w)) = calls w @ [Called_get_title_using_ai text]"
  by (simp add: get_title_using_ai_def Let_def st_error_def split: result.splits)

lemma extract_Some_nonempty:
  "extract_text_from_pdf parse pdf_file w = (Return (Some t), w1) \<Longrightarrow> t \<noteq> [] \<and> ui w1 = ui w"
  by (auto simp: extract_text_from_pdf_def extract_text_body_eq strip_def
      split: result.splits list.splits if_splits)

lemma one_entry_per_key:
  "distinct (map fst d) \<Longrightarrow> k \<in> set (map fst d) \<Longrightarrow> length (filter (\<lambda>item. fst item = k) d) = 1"
proof (induction d)
  case Nil
  then show ?case by simp
next
  case (Cons a d)
  show ?case
  proof (cases "fst a = k")
    case True
    with Cons.prems have "k \<notin> fst ` set d" by simp
    then have "filter (\<lambda>item. fst item = k) d = []"
      by (force simp: filter_empty_conv)
    with True show ?thesis by simp
  next
    case False
    with Cons show ?thesis by simp
  qed
qed

text \<open>The session after the first upload of the report, written out.\<close>

lemma listing_session_eq:
  "listing_session =
     \<lparr>processed_files =
        [(str_of ''report.pdf'',
          \<lparr>content = [37, 80, 68, 70], proposed_name = str_of ''Revenue Growth Report.pdf'',
           original_name = str_of ''report.pdf''\<rparr>)],
      tmp_files = [], rng = 0, ui = [],
      calls = [Called_extract_text_from_pdf report_pdf,
               Called_get_title_using_ai (str_of ''Revenue  Growth Report. Fiscal Year 2024'')]\<rparr>"
  by (simp add: listing_session_def process_file_def extract_text_from_pdf_def extract_text_body_eq
        page_parser_def parse_as_def get_title_using_ai_def get_title_body_def echo_summarizer_def
        clean_title_eq strip_def str_of_def isspace_def period_def new_session_def report_pdf_def)

text \<open>
  C5. When a file is uploaded whose name is already a key of the dict, the loop body leaves
  the world as it is: the dict keeps its one entry for the name, the one it had, and the
  log of calls does not grow, so neither \<open>extract_text_from_pdf\<close> nor
  \<open>get_title_using_ai\<close> was called.
\<close>

theorem reupload_not_processed:
  assumes "name pdf_file \<in> set (map fst (processed_files w))"
    and "distinct (map fst (processed_files w))"
  shows "process_file parse summarize pdf_file w = (Return (), w) \<and>
         calls (snd (process_file parse summarize pdf_file w)) = calls w \<and>
         map_of (processed_files (snd (process_file parse summarize pdf_file w))) (name pdf_file)
           = map_of (processed_files w) (name pdf_file) \<and>
         length (filter (\<lambda>item. fst item = name pdf_file)
                   (processed_files (snd (process_file parse summarize pdf_file w)))) = 1"
proof -
  have "process_file parse summarize pdf_file w = (Return (), w)"
    using assms(1) by (simp add: process_file_def)
  then show ?thesis using assms by (simp add: one_entry_per_key)
qed

theorem reupload_not_processed_witness:
  "process_file page_parser echo_summarizer report_pdf_again listing_session
     = (Return (), listing_session) \<and>
   calls (snd (process_file page_parser echo_summarizer report_pdf_again listing_session))
     = calls listing_session \<and>
   map_of (processed_files
             (snd (process_file page_parser echo_summarizer report_pdf_again listing_session)))
       (name report_pdf_again)
     = map_of (processed_files listing_session) (name report_pdf_again) \<and>
   length (filter (\<lambda>item. fst item = name report_pdf_again)
             (processed_files
                (snd (process_file page_parser echo_summarizer report_pdf_again listing_session))))
     = 1"
proof -
  have h1: "name report_pdf_again \<in> set (map fst (processed_files listing_session))"
    by (simp add: listing_session_eq report_pdf_again_def)
  have h2: "distinct (map fst (processed_files listing_session))"
    by (simp add: listing_session_eq)
  show ?thesis
    by (rule reupload_not_processed [OF h1 h2])
qed

text \<open>
  C7. When \<open>extract_text_from_pdf\<close> returns \<open>None\<close> for an uploaded file, or returns a
  text for which \<open>get_title_using_ai\<close> returns \<open>None\<close>, the loop body leaves the dict
  exactly as it was: no entry is made for the file.
\<close>

theorem failed_file_not_registered:
  "(fst (extract_text_from_pdf parse pdf_file w) = Return None \<longrightarrow>
      processed_files (snd (process_file parse summarize pdf_file w)) = processed_files w) \<and>
   (extract_text_from_pdf parse pdf_file w = (Return (Some text), w1) \<and>
    fst (get_title_using_ai text summarize w1) = Return None \<longrightarrow>
      processed_files (snd (process_file parse summarize pdf_file w)) = processed_files w)"
proof (intro conjI impI)
  assume a: "fst (extract_text_from_pdf parse pdf_file w) = Return None"
  obtain r w' where ex: "extract_text_from_pdf parse pdf_file w = (r, w')"
    by (cases "extract_text_from_pdf parse pdf_file w")
  with a have r: "r = Return None" by simp
  from ex have "processed_files w' = processed_files w"
    using extract_processed_files [of parse pdf_file w] by simp
  with ex r show "processed_files (snd (process_file parse summarize pdf_file w)) = processed_files w"
    by (simp add: process_file_def st_warning_def)
next
  assume a: "extract_text_from_pdf parse pdf_file w = (Return (Some text), w1) \<and>
    fst (get_title_using_ai text summarize w1) = Return None"
  obtain r w2 where gt: "get_title_using_ai text summarize w1 = (r, w2)"
    by (cases "get_title_using_ai text summarize w1")
  with a have r: "r = Return None" by simp
  from a have p1: "processed_files w1 = processed_files w"
    using extract_processed_files [of parse pdf_file w] by simp
  from gt have p2: "processed_files w2 = processed_files w1"
    using get_title_processed_files [of "text" summarize w1] by simp
  from a gt r p1 p2
  show "processed_files (snd (process_file parse summarize pdf_file w)) = processed_files w"
    by (simp add: process_file_def st_warning_def)
qed

theorem failed_file_not_registered_witness:
  "processed_files (snd (process_file (parse_as (Return (Return []))) echo_summarizer notes_pdf listing_session))
     = processed_files listing_session \<and>
   processed_files
     (snd (process_file page_parser
             (answer_with (Raise (LibraryError (str_of ''out of memory''))))
             notes_pdf listing_session))
     = processed_files listing_session"
proof -
  let ?t = "str_of ''Revenue  Growth Report. Fiscal Year 2024''"
  let ?w1 = "listing_session\<lparr>calls := calls listing_session @ [Called_extract_text_from_pdf notes_pdf]\<rparr>"
  let ?s = "answer_with (Raise (LibraryError (str_of ''out of memory'')))"
  have h1: "fst (extract_text_from_pdf (parse_as (Return (Return []))) notes_pdf listing_session) = Return None"
    by (simp add: extract_text_from_pdf_def extract_text_body_eq parse_as_def)
  have h2: "extract_text_from_pdf page_parser notes_pdf listing_session = (Return (Some ?t), ?w1)"
    by (simp add: extract_text_from_pdf_def extract_text_body_eq page_parser_def parse_as_def
          strip_def str_of_def isspace_def)
  have h3: "fst (get_title_using_ai ?t ?s ?w1) = Return None"
    by (simp add: get_title_using_ai_def get_title_body_def answer_with_def)
  show ?thesis
    using
      failed_file_not_registered
        [of "parse_as (Return (Return []))" notes_pdf listing_session echo_summarizer "[]" listing_session]
      failed_file_not_registered [of page_parser notes_pdf listing_session ?s ?t ?w1]
      h1 h2 h3
    by simp
qed

lemma clean_title_empty:
  "re_sub_ws (strip summary) = [] \<or> hd (re_sub_ws (strip summary)) = period \<Longrightarrow>
     clean_title summary = []"
  by (cases "re_sub_ws (strip summary)") (auto simp: clean_title_eq)

text \<open>
  C10. When the summary, stripped and with its white space collapsed, is empty or begins
  with a full stop, \<open>get_title_using_ai\<close> returns the empty string and shows no error;
  the loop body then takes the branch of line 113: it warns that no title could be
  generated and makes no entry for the file.
\<close>

theorem empty_title_is_failure:
  assumes "name pdf_file \<notin> set (map fst (processed_files w))"
    and "extract_text_from_pdf parse pdf_file w = (Return (Some text), w1)"
    and "summarize (rng w1) (take 1024 text) 30 5 False = Return (d # ds)"
    and "map_of d ''summary_text'' = Some summary"
    and "re_sub_ws (strip summary) = [] \<or> hd (re_sub_ws (strip summary)) = period"
  shows "fst (get_title_using_ai text summarize w1) = Return (Some []) \<and>
         ui (snd (get_title_using_ai text summarize w1)) = ui w1 \<and>
         processed_files (snd (process_file parse summarize pdf_file w)) = processed_files w \<and>
         ui (snd (process_file parse summarize pdf_file w))
           = ui w @ [StWarning (str_of ''Could not generate title for '' @ name pdf_file)]"
proof -
  have ct: "clean_title summary = []" using assms(5) by (rule clean_title_empty)
  have gt: "get_title_using_ai text summarize w1 =
              (Return (Some []), w1\<lparr>calls := calls w1 @ [Called_get_title_using_ai text]\<rparr>)"
    using assms(3,4) ct by (simp add: get_title_using_ai_def get_title_body_def Let_def)
  from assms(2) have ne: "text \<noteq> []" and u: "ui w1 = ui w"
    using extract_Some_nonempty by blast+
  from assms(2) have p: "processed_files w1 = processed_files w"
    using extract_processed_files [of parse pdf_file w] by simp
  have "process_file parse summarize pdf_file w =
          (Return (), st_warning (str_of ''Could not generate title for '' @ name pdf_file)
                        (w1\<lparr>calls := calls w1 @ [Called_get_title_using_ai text]\<rparr>))"
    using assms(1,2) gt ne by (simp add: process_file_def)
  with gt u p show ?thesis by (simp add: st_warning_def)
qed

theorem empty_title_is_failure_witness:
  "fst (get_title_using_ai (str_of ''Revenue  Growth Report. Fiscal Year 2024'')
          (answer_with (Return [[(''summary_text'', str_of '' . Revenue grew'')]]))
          (new_session\<lparr>calls := [Called_extract_text_from_pdf notes_pdf]\<rparr>)) = Return (Some []) \<and>
   processed_files
     (snd (process_file page_parser
             (answer_with (Return [[(''summary_text'', str_of '' . Revenue grew'')]]))
             notes_pdf new_session)) = [] \<and>
   ui (snd (process_file page_parser
              (answer_with (Return [[(''summary_text'', str_of '' . Revenue grew'')]]))
              notes_pdf new_session))
     = [StWarning (str_of ''Could not generate title for notes.pdf'')]"
proof -
  let ?s = "answer_with (Return [[(''summary_text'', str_of '' . Revenue grew'')]])"
  let ?t = "str_of ''Revenue  Growth Report. Fiscal Year 2024''"
  let ?w1 = "new_session\<lparr>calls := [Called_extract_text_from_pdf notes_pdf]\<rparr>"
  have h1: "name notes_pdf \<notin> set (map fst (processed_files new_session))"
    by (simp add: new_session_def)
  have h2: "extract_text_from_pdf page_parser notes_pdf new_session = (Return (Some ?t), ?w1)"
    by (simp add: extract_text_from_pdf_def extract_text_body_eq page_parser_def parse_as_def
          strip_def str_of_def isspace_def new_session_def)
  have h3: "?s (rng ?w1) (take 1024 ?t) 30 5 False
              = Return ([(''summary_text'', str_of '' . Revenue grew'')] # [])"
    by (simp add: answer_with_def)
  have h4: "map_of [(''summary_text'', str_of '' . Revenue grew'')] ''summary_text''
              = Some (str_of '' . Revenue grew'')"
    by simp
  have h5: "re_sub_ws (strip (str_of '' . Revenue grew'')) = [] \<or>
            hd (re_sub_ws (strip (str_of '' . Revenue grew''))) = period"
    by (simp add: strip_def str_of_def isspace_def period_def)
  show ?thesis
    using empty_title_is_failure
      [where pdf_file = notes_pdf and w = new_session and parse = page_parser and ?w1.0 = "?w1"
         and summarize = "?s" and d = "[(''summary_text'', str_of '' . Revenue grew'')]"
         and ds = "[]" and summary = "str_of '' . Revenue grew''", OF h1 h2 h3 h4 h5]
    by (simp add: new_session_def notes_pdf_def str_of_def)
qed

section \<open>Edits of proposed names\<close>

lemma set_proposed_name_registered:
  "map_of (processed_files w) key = Some e \<Longrightarrow>
     set_proposed_name key new_name w =
       (Return (),
        w\<lparr>processed_files :=
             AList.update key (e\<lparr>proposed_name := new_name\<rparr>) (processed_files w)\<rparr>)"
  by (simp add: set_proposed_name_def)

text \<open>An edit of any key keeps the content and the original name of every entry.\<close>

lemma set_proposed_name_frame:
  "map_of (processed_files w) k = Some e \<Longrightarrow>
     \<exists>e'. map_of (processed_files (snd (set_proposed_name key new_name w))) k = Some e' \<and>
          content e' = content e \<and> original_name e' = original_name e"
  by (auto simp: set_proposed_name_def update_conv' split: option.splits)

lemma edit_names_frame:
  "map_of (processed_files w) k = Some e \<Longrightarrow>
     \<exists>e'. map_of (processed_files (snd (edit_names edits w))) k = Some e' \<and>
          content e' = content e \<and> original_name e' = original_name e"
proof (induction edits arbitrary: w e)
  case Nil
  then show ?case by simp
next
  case (Cons ed edits)
  obtain key new_name where ed: "ed = (key, new_name)" by (cases ed)
  obtain r w1 where step: "set_proposed_name key new_name w = (r, w1)"
    by (cases "set_proposed_name key new_name w")
  from set_proposed_name_frame [OF Cons.prems, of key new_name] step
  obtain e1 where e1: "map_of (processed_files w1) k = Some e1" "content e1 = content e"
      "original_name e1 = original_name e" by auto
  show ?case
  proof (cases r)
    case (Raise x)
    with ed step e1 show ?thesis by simp
  next
    case (Return u)
    from Cons.IH [OF e1(1)] e1 ed step Return show ?thesis by simp
  qed
qed

text \<open>
  C6. For an entry of the dict: setting its proposed name succeeds, and the entry read
  afterwards is the old one with the new proposed name; and after any sequence of edits of
  proposed names, of this or of other keys, the entry has the content and the original
  name it had.
\<close>

theorem edit_law:
  "map_of (processed_files w) key = Some e \<Longrightarrow>
     fst (set_proposed_name key new_name w) = Return () \<and>
     map_of (processed_files (snd (set_proposed_name key new_name w))) key
       = Some (e\<lparr>proposed_name := new_name\<rparr>) \<and>
     map_option content (map_of (processed_files (snd (edit_names edits w))) key)
       = Some (content e) \<and>
     map_option original_name (map_of (processed_files (snd (edit_names edits w))) key)
       = Some (original_name e)"
  using edit_names_frame [of w key e edits]
  by (auto simp: set_proposed_name_registered update_conv')

theorem edit_law_witness:
  "fst (set_proposed_name (str_of ''report.pdf'') (str_of ''Q3.pdf'') listing_session) = Return () \<and>
   map_option proposed_name
     (map_of (processed_files
                (snd (set_proposed_name (str_of ''report.pdf'') (str_of ''Q3.pdf'') listing_session)))
        (str_of ''report.pdf'')) = Some (str_of ''Q3.pdf'') \<and>
   map_option content
     (map_of (processed_files
                (snd (edit_names
                        [(str_of ''report.pdf'', str_of ''Q3.pdf''),
                         (str_of ''report.pdf'', str_of ''Q4.pdf'')]
                        listing_session)))
        (str_of ''report.pdf'')) = Some (getvalue report_pdf)"
proof -
  have h: "map_of (processed_files listing_session) (str_of ''report.pdf'') =
             Some \<lparr>content = [37, 80, 68, 70], proposed_name = str_of ''Revenue Growth Report.pdf'',
                   original_name = str_of ''report.pdf''\<rparr>"
    by (simp add: listing_session_eq)
  show ?thesis
    using edit_law [OF h, of "str_of ''Q3.pdf''"
        "[(str_of ''report.pdf'', str_of ''Q3.pdf''), (str_of ''report.pdf'', str_of ''Q4.pdf'')]"]
    by (simp add: report_pdf_def)
qed

section \<open>The rows and their download buttons\<close>

lemma update_middle:
  "k \<notin> fst ` set pre \<Longrightarrow> AList.update k v (pre @ (k, v0) # rest) = pre @ (k, v) # rest"
  by (induction pre) auto

lemma map_of_middle: "k \<notin> fst ` set pre \<Longrightarrow> map_of (pre @ (k, v0) # rest) k = Some v0"
  by (induction pre) auto

lemma same_button_download_button_of:
  "same_button (str_of ''Download'') n (str_of ''application/pdf'') (download_button_of item)
     \<longleftrightarrow> proposed_name (snd item) = n"
  by (auto simp: download_button_of_def)

text \<open>
  The loop over the rows, from any point on: \<open>pre\<close> are the items whose rows are done.
  When the names the rows come to show differ from each other and from those of the
  buttons already drawn, every row succeeds, rewrites its own item and adds its button.
\<close>

lemma render_rows_gen:
  assumes "processed_files w = pre @ items"
    and "distinct (map fst (pre @ items))"
    and "distinct (map (\<lambda>item. proposed_name (snd (edited_row typed item))) items)"
    and "\<forall>item\<in>set items.
           \<not> list_ex (same_button (str_of ''Download'')
                         (proposed_name (snd (edited_row typed item)))
                         (str_of ''application/pdf'')) (ui w)"
  shows "fst (render_rows typed items w) = Return () \<and>
     processed_files (snd (render_rows typed items w)) = pre @ map (edited_row typed) items \<and>
     ui (snd (render_rows typed items w))
       = ui w @ map download_button_of (map (edited_row typed) items)"
  using assms
proof (induction items arbitrary: w pre)
  case Nil
  then show ?case by simp
next
  case (Cons item items)
  obtain key file_info where item: "item = (key, file_info)" by (cases item)
  let ?new = "st_text_input typed (proposed_name file_info) (str_of ''input_'' @ key)"
  let ?fi = "file_info\<lparr>proposed_name := ?new\<rparr>"
  let ?w1 = "w\<lparr>processed_files := pre @ (key, ?fi) # items\<rparr>"
  let ?w2 = "snd (NamedTemporaryFile (content file_info) ?w1)"
  let ?w3 = "?w2\<lparr>ui := ui ?w2 @ [StDownloadButton (str_of ''Download'') (content file_info) ?new
                                   (str_of ''application/pdf'')]\<rparr>"
  have er: "edited_row typed item = (key, ?fi)"
    using item by (simp add: edited_row_def)
  from Cons.prems(2) item have fresh: "key \<notin> fst ` set pre" by auto
  have pf: "processed_files w = pre @ (key, file_info) # items"
    using Cons.prems(1) item by simp
  have m: "map_of (pre @ (key, file_info) # items) key = Some file_info"
    using fresh by (rule map_of_middle)
  have u: "AList.update key ?fi (pre @ (key, file_info) # items) = pre @ (key, ?fi) # items"
    using fresh by (rule update_middle)
  have sp: "set_proposed_name key ?new w = (Return (), ?w1)"
    by (simp only: set_proposed_name_def pf m u option.case)
  have ui2: "ui ?w2 = ui w"
    by (simp add: NamedTemporaryFile_def Let_def)
  have free: "\<not> list_ex (same_button (str_of ''Download'') ?new (str_of ''application/pdf''))
                  (ui ?w2)"
    using Cons.prems(4) er ui2 by simp
  have db: "st_download_button (str_of ''Download'') (content file_info) ?new
              (str_of ''application/pdf'') ?w2 = (Return (), ?w3)"
    using free by (simp add: st_download_button_def)
  have step: "render_rows typed (item # items) w = render_rows typed items ?w3"
    using sp db item by (simp add: Let_def case_prod_beta)
  have pf3: "processed_files ?w3 = (pre @ [(key, ?fi)]) @ items"
    by (simp add: NamedTemporaryFile_def Let_def)
  have ui3: "ui ?w3 = ui w @ [download_button_of (key, ?fi)]"
    by (simp add: NamedTemporaryFile_def Let_def download_button_of_def)
  have d3: "distinct (map fst ((pre @ [(key, ?fi)]) @ items))"
    using Cons.prems(2) item by simp
  have n3: "distinct (map (\<lambda>item. proposed_name (snd (edited_row typed item))) items)"
    using Cons.prems(3) by simp
  have f3: "\<forall>it\<in>set items.
           \<not> list_ex (same_button (str_of ''Download'')
                         (proposed_name (snd (edited_row typed it)))
                         (str_of ''application/pdf'')) (ui ?w3)"
  proof
    fix it assume it: "it \<in> set items"
    with Cons.prems(4) have a: "\<not> list_ex (same_button (str_of ''Download'')
        (proposed_name (snd (edited_row typed it))) (str_of ''application/pdf'')) (ui w)" by simp
    from Cons.prems(3) it er have b: "?new \<noteq> proposed_name (snd (edited_row typed it))"
      by auto
    show "\<not> list_ex (same_button (str_of ''Download'')
                       (proposed_name (snd (edited_row typed it)))
                       (str_of ''application/pdf'')) (ui ?w3)"
      using a b by (simp add: ui3 same_button_download_button_of list_ex_iff)
  qed
  from Cons.IH [OF pf3 d3 n3 f3] step ui3 er show ?case by simp
qed

lemma content_edited_row: "content (snd (edited_row typed item)) = content (snd item)"
  by (simp add: edited_row_def)

text \<open>
  A pass over a dict whose entries come to show names that all differ, on an empty page:
  every row is drawn; each entry then has as proposed name what its input widget returned
  in this pass; the buttons are, row by row, those of the entries as they are after the
  pass, named by the proposed name and carrying the content; and the contents are the ones
  the entries had before the pass.
\<close>

lemma render_rows_distinct_names:
  assumes "distinct (map fst (processed_files w))"
    and "distinct (map (\<lambda>item. proposed_name (snd (edited_row typed item))) (processed_files w))"
    and "ui w = []"
  shows "fst (render_rows typed (processed_files w) w) = Return () \<and>
     processed_files (snd (render_rows typed (processed_files w) w))
       = map (edited_row typed) (processed_files w) \<and>
     ui (snd (render_rows typed (processed_files w) w))
       = map download_button_of (processed_files (snd (render_rows typed (processed_files w) w))) \<and>
     map (\<lambda>item. content (snd item)) (processed_files (snd (render_rows typed (processed_files w) w)))
       = map (\<lambda>item. content (snd item)) (processed_files w)"
  using render_rows_gen [of w "[]" "processed_files w" typed] assms
  by (simp add: content_edited_row comp_def)

text \<open>The session after the same PDF was uploaded under two names, written out.\<close>

lemma twin_session_eq:
  "twin_session =
     \<lparr>processed_files =
        [(str_of ''report.pdf'',
          \<lparr>content = [37, 80, 68, 70], proposed_name = str_of ''Revenue Growth Report.pdf'',
           original_name = str_of ''report.pdf''\<rparr>),
         (str_of ''copy.pdf'',
          \<lparr>content = [37, 80, 68, 70], proposed_name = str_of ''Revenue Growth Report.pdf'',
           original_name = str_of ''copy.pdf''\<rparr>)],
      tmp_files = [], rng = 0, ui = [],
      calls = [Called_extract_text_from_pdf report_pdf,
               Called_get_title_using_ai (str_of ''Revenue  Growth Report. Fiscal Year 2024''),
               Called_extract_text_from_pdf copy_pdf,
               Called_get_title_using_ai (str_of ''Revenue  Growth Report. Fiscal Year 2024'')]\<rparr>"
  by (simp add: twin_session_def process_file_def extract_text_from_pdf_def extract_text_body_eq
        page_parser_def parse_as_def get_title_using_ai_def get_title_body_def echo_summarizer_def
        clean_title_eq strip_def str_of_def isspace_def period_def new_session_def report_pdf_def
        copy_pdf_def)

lemma render_twin_session:
  "render_rows [] (processed_files twin_session) twin_session =
     (Raise DuplicateWidgetID,
      twin_session
        \<lparr>tmp_files := [(0, [37, 80, 68, 70]), (1, [37, 80, 68, 70])],
         ui := [StDownloadButton (str_of ''Download'') [37, 80, 68, 70]
                  (str_of ''Revenue Growth Report.pdf'') (str_of ''application/pdf'')]\<rparr>)"
  by (simp add: twin_session_eq set_proposed_name_def st_text_input_def NamedTemporaryFile_def
        st_download_button_def str_of_def Let_def)

text \<open>
  C8. The claim: every registered entry gets a download whose file name is the entry's
  current proposed name and whose bytes are the uploaded content. The code does not do
  that for two entries that come to show the same proposed name. After the same PDF was
  uploaded as \<open>report.pdf\<close> and as \<open>copy.pdf\<close>, both entries are registered with the
  proposed name the summarizer gave; the row of the first draws its button; the button of
  the second row, called without \<open>key=\<close> at lines 151-156, has the identity of the
  first, the call raises, and the second entry has no download. (The input widget of the
  same row is given \<open>key=f"input_{original_name}"\<close> at line 140. With names that all
  differ the rows are as claimed: \<open>render_rows_distinct_names\<close>.)
\<close>

theorem second_download_button_of_same_name_raises:
  "map fst (processed_files twin_session) = [str_of ''report.pdf'', str_of ''copy.pdf''] \<and>
   fst (render_rows [] (processed_files twin_session) twin_session) = Raise DuplicateWidgetID \<and>
   ui (snd (render_rows [] (processed_files twin_session) twin_session))
     = [StDownloadButton (str_of ''Download'') (getvalue report_pdf)
          (str_of ''Revenue Growth Report.pdf'') (str_of ''application/pdf'')]"
  by (simp add: render_twin_session report_pdf_def) (simp add: twin_session_eq)

text \<open>
  The whole run on these two uploads in a new session: one button, then the messages of
  the handler of lines 173-175.
\<close>

lemma main_twin_uploads:
  "ui (main (Return echo_summarizer) page_parser [report_pdf, copy_pdf] [] False new_session)
     = [StDownloadButton (str_of ''Download'') (getvalue report_pdf)
          (str_of ''Revenue Growth Report.pdf'') (str_of ''application/pdf''),
        StError (str_of ''An error occurred: There are multiple identical st.download_button widgets''),
        StError (str_of ''Please refresh the page and try again'')]"
proof -
  have ns: "new_session\<lparr>ui := []\<rparr> = new_session" by (simp add: new_session_def)
  have pu: "process_uploads page_parser echo_summarizer [report_pdf, copy_pdf] new_session
              = (Return (), twin_session)"
    by (simp add: twin_session_def process_file_def extract_text_from_pdf_def extract_text_body_eq
        page_parser_def parse_as_def get_title_using_ai_def get_title_body_def echo_summarizer_def
        clean_title_eq strip_def str_of_def isspace_def period_def new_session_def report_pdf_def
        copy_pdf_def)
  have ne: "processed_files twin_session \<noteq> []" by (simp add: twin_session_eq)
  have "main_body (Return echo_summarizer) page_parser [report_pdf, copy_pdf] [] False new_session
          = render_rows [] (processed_files twin_session) twin_session"
    unfolding main_body_def by (simp add: pu ne render_twin_session del: process_uploads.simps)
  then show ?thesis
    by (simp add: main_def ns render_twin_session st_error_def report_pdf_def str_of_def)
qed

section \<open>The dict stays a dict, and its contents are the uploads\<close>

text \<open>What the loop body does to the dict: nothing, or one new entry for the file.\<close>

lemma process_file_processed_files:
  "processed_files (snd (process_file parse summarize pdf_file w)) = processed_files w \<or>
   (name pdf_file \<notin> set (map fst (processed_files w)) \<and>
    (\<exists>title. processed_files (snd (process_file parse summarize pdf_file w)) =
       AList.update (name pdf_file)
         \<lparr>content = getvalue pdf_file, proposed_name = title @ str_of ''.pdf'',
          original_name = name pdf_file\<rparr> (processed_files w)))"
proof -
  let ?t = "the (case fst (extract_text_from_pdf parse pdf_file w) of
                   Return t \<Rightarrow> t | Raise e \<Rightarrow> None)"
  obtain r1 w1 where ex: "extract_text_from_pdf parse pdf_file w = (r1, w1)"
    by (cases "extract_text_from_pdf parse pdf_file w")
  then have p1: "processed_files w1 = processed_files w"
    using extract_processed_files [of parse pdf_file w] by simp
  obtain r2 w2 where gt: "get_title_using_ai ?t summarize w1 = (r2, w2)"
    by (cases "get_title_using_ai ?t summarize w1")
  then have p2: "processed_files w2 = processed_files w1"
    using get_title_processed_files [of ?t summarize w1] by simp
  show ?thesis
    using ex gt p1 p2
    by (cases r1; cases r2) (auto simp: process_file_def st_warning_def Let_def)
qed

lemma process_file_distinct:
  "distinct (map fst (processed_files w)) \<Longrightarrow>
     distinct (map fst (processed_files (snd (process_file parse summarize pdf_file w))))"
  using process_file_processed_files [of parse summarize pdf_file w]
  by (auto simp: distinct_update)

text \<open>The entry made for an upload holds the bytes and the name of the upload.\<close>

lemma process_file_registers_upload:
  assumes "name pdf_file \<notin> set (map fst (processed_files w))"
    and "map_of (processed_files (snd (process_file parse summarize pdf_file w))) (name pdf_file)
           = Some e"
  shows "content e = getvalue pdf_file \<and> original_name e = name pdf_file"
proof -
  from assms(1) have "map_of (processed_files w) (name pdf_file) = None"
    by (simp add: map_of_eq_None_iff)
  with assms(2) process_file_processed_files [of parse summarize pdf_file w]
  show ?thesis by (auto simp: update_conv')
qed

lemma process_uploads_distinct:
  "distinct (map fst (processed_files w)) \<Longrightarrow>
     distinct (map fst (processed_files (snd (process_uploads parse summarize uploaded_files w))))"
proof (induction uploaded_files arbitrary: w)
  case Nil
  then show ?case by simp
next
  case (Cons pdf_file rest)
  obtain r w1 where pf: "process_file parse summarize pdf_file w = (r, w1)"
    by (cases "process_file parse summarize pdf_file w")
  with Cons.prems process_file_distinct [of w parse summarize pdf_file]
  have d1: "distinct (map fst (processed_files w1))" by simp
  show ?case
  proof (cases r)
    case (Return u)
    with pf Cons.IH [OF d1] show ?thesis by simp
  next
    case (Raise e)
    with pf d1 show ?thesis by simp
  qed
qed

lemma update_keys: "k \<in> fst ` set d \<Longrightarrow> map fst (AList.update k v d) = map fst d"
  by (induction d) auto

lemma set_proposed_name_keys:
  "map fst (processed_files (snd (set_proposed_name key new_name w))) = map fst (processed_files w)"
proof (cases "map_of (processed_files w) key")
  case None
  then show ?thesis by (simp add: set_proposed_name_def)
next
  case (Some e)
  then have "key \<in> fst ` set (processed_files w)"
    by (metis map_of_eq_None_iff option.distinct(1))
  with Some show ?thesis by (simp add: set_proposed_name_def update_keys)
qed

text \<open>The rows keep the keys of the dict, also when a row raises.\<close>

lemma render_rows_keys:
  "map fst (processed_files (snd (render_rows typed items w))) = map fst (processed_files w)"
proof (induction items arbitrary: w)
  case Nil
  show ?case by simp
next
  case (Cons item items)
  obtain key file_info where item: "item = (key, file_info)" by (cases item)
  let ?new = "st_text_input typed (proposed_name file_info) (str_of ''input_'' @ key)"
  obtain r1 w1 where sp: "set_proposed_name key ?new w = (r1, w1)"
    by (cases "set_proposed_name key ?new w")
  then have k1: "map fst (processed_files w1) = map fst (processed_files w)"
    using set_proposed_name_keys [of key ?new w] by simp
  let ?w2 = "snd (NamedTemporaryFile (content file_info) w1)"
  obtain r3 w3 where db: "st_download_button (str_of ''Download'') (content file_info) ?new
              (str_of ''application/pdf'') ?w2 = (r3, w3)"
    by (cases "st_download_button (str_of ''Download'') (content file_info) ?new
              (str_of ''application/pdf'') ?w2")
  then have k3: "processed_files w3 = processed_files w1"
    by (auto simp: st_download_button_def NamedTemporaryFile_def Let_def split: if_splits)
  show ?case
    using item sp db k1 k3 Cons.IH [of w3]
    by (cases r1; cases r3) (simp_all add: Let_def case_prod_beta)
qed

lemma render_rows_distinct:
  "distinct (map fst (processed_files w)) \<Longrightarrow>
     distinct (map fst (processed_files (snd (render_rows typed items w))))"
  by (simp add: render_rows_keys)

text \<open>A run of the script keeps the keys of the dict distinct; a new session has none.\<close>

lemma main_distinct:
  "distinct (map fst (processed_files w)) \<Longrightarrow>
     distinct (map fst (processed_files (main load_model parse uploaded_files typed clear_all w)))"
proof -
  assume d: "distinct (map fst (processed_files w))"
  let ?w = "w\<lparr>ui := []\<rparr>"
  from d have d0: "distinct (map fst (processed_files ?w))" by simp
  have "distinct (map fst (processed_files
          (snd (main_body load_model parse uploaded_files typed clear_all ?w))))"
  proof (cases load_model)
    case (Raise e)
    with d0 show ?thesis by (simp add: main_body_def)
  next
    case (Return summarize)
    obtain r1 w1 where pu: "process_uploads parse summarize uploaded_files ?w = (r1, w1)"
      by (cases "process_uploads parse summarize uploaded_files ?w")
    with d0 process_uploads_distinct [of ?w parse summarize uploaded_files]
    have d1: "distinct (map fst (processed_files w1))" by simp
    obtain r2 w2 where rr: "render_rows typed (processed_files w1) w1 = (r2, w2)"
      by (cases "render_rows typed (processed_files w1) w1")
    with d1 render_rows_distinct [of w1 typed "processed_files w1"]
    have d2: "distinct (map fst (processed_files w2))" by simp
    show ?thesis
      using Return pu rr d0 d1 d2
      by (cases r1; cases r2) (simp_all add: main_body_def)
  qed
  then show ?thesis
    by (cases "main_body load_model parse uploaded_files typed clear_all ?w")
       (auto simp: main_def st_error_def split: result.splits)
qed

lemma new_session_distinct: "distinct (map fst (processed_files new_session))"
  by (simp add: new_session_def)

end
